theory Spec2Isabelle
  imports Main "HOL-Library.Word"
begin

section \<open>Go values used by package msgraph\<close>

text \<open>
  A Go slice is a list that may be nil: \<open>None\<close> is the nil slice, \<open>Some xs\<close> a non-nil
  slice holding \<open>xs\<close>. A Go pointer to a string (\<^verbatim>\<open>*string\<close>) is a \<open>string option\<close>,
  \<open>None\<close> being nil. Dereferencing nil panics; a panic is a result of its own.
\<close>

type_synonym 'a slice = "'a list option"

type_synonym byte = "8 word"

definition elems :: "'a slice \<Rightarrow> 'a list" where
  "elems s = (case s of None \<Rightarrow> [] | Some xs \<Rightarrow> xs)"

text \<open>
  \<^verbatim>\<open>append(s, xs...)\<close>: with nothing to append the slice is returned as it is (nil stays
  nil); otherwise the result is a non-nil slice of the old elements followed by the new.
\<close>

definition go_append :: "'a slice \<Rightarrow> 'a list \<Rightarrow> 'a slice" where
  "go_append s xs = (if xs = [] then s else Some (elems s @ xs))"

datatype 'a outcome = NilPointerPanic | Return 'a

subsection \<open>Errors\<close>

text \<open>
  \<^verbatim>\<open>odataerrors.MainError\<close> with its \<^verbatim>\<open>GetMessage() *string\<close>, and
  \<^verbatim>\<open>*odataerrors.ODataError\<close> with its \<^verbatim>\<open>GetError()\<close> (nil when the payload has no
  main error) and the text its \<^verbatim>\<open>Error()\<close> method prints.
\<close>

datatype MainError = MainError (MainError_GetMessage: "string option")

datatype ODataError = ODataError (GetError: "MainError option") (ODataError_text: string)

text \<open>
  A Go error value: one made by \<^verbatim>\<open>errors.New\<close> (text only), an OData error, or any
  other error that wraps an inner one (its \<^verbatim>\<open>Unwrap()\<close>) under a text of its own.
\<close>

datatype go_error =
    ErrorString string
  | OData ODataError
  | WrapError string go_error

definition errors_New :: "string \<Rightarrow> go_error" where
  "errors_New text = ErrorString text"

fun Error :: "go_error \<Rightarrow> string" where
  "Error (ErrorString s) = s"
| "Error (OData ode) = ODataError_text ode"
| "Error (WrapError s inner) = s"

text \<open>
  \<^verbatim>\<open>errors.As(err, &ode)\<close> with \<^verbatim>\<open>ode\<close> of type \<^verbatim>\<open>*odataerrors.ODataError\<close>: the first
  error of that type on the chain of \<^verbatim>\<open>err\<close>, if there is one.
\<close>

fun errors_As :: "go_error \<Rightarrow> ODataError option" where
  "errors_As (ErrorString s) = None"
| "errors_As (OData ode) = Some ode"
| "errors_As (WrapError s inner) = errors_As inner"

text \<open>\<^verbatim>\<open>parseError\<close> (service.go, lines 208 to 223). A nil error is \<open>None\<close>.\<close>

definition parseError :: "go_error option \<Rightarrow> go_error option" where
  "parseError err =
     (case err of
        None \<Rightarrow> None
      | Some e \<Rightarrow>
          (case errors_As e of
             Some ode \<Rightarrow>
               (case GetError ode of
                  Some me \<Rightarrow>
                    (case MainError_GetMessage me of
                       Some m \<Rightarrow> Some (errors_New m)
                     | None \<Rightarrow> Some (errors_New (Error e)))
                | None \<Rightarrow> Some (errors_New (Error e)))
           | None \<Rightarrow> Some (errors_New (Error e))))"

section \<open>The remote API as the service sees it\<close>

text \<open>
  One page of a delta response (\<^verbatim>\<open>...DeltaResponseable\<close>): its items, its next-page link
  and its delta link. The item type \<open>'m\<close> (\<^verbatim>\<open>models.Messageable\<close>) is opaque.
\<close>

record 'm DeltaResponse =
  GetValue :: "'m slice"
  GetOdataNextLink :: "string option"
  GetOdataDeltaLink :: "string option"

text \<open>
  A request to the remote API either fails with an error or delivers a response, and
  may change the state \<open>'s\<close> of the world (the server, the clock, the network): the
  request adapter is a function of that state which returns the new one.
\<close>

type_synonym ('s, 'r) request = "'s \<Rightarrow> (go_error + 'r) \<times> 's"

record RequestInformation =
  UrlTemplate :: string
  PathUserId :: string
  PathMailFolderId :: string

datatype Attachmentable =
    FileAttachmentable (GetName: "string option") (GetContentType: "string option")
      (GetContentBytes: "byte slice")
  | OtherAttachmentable (GetName: "string option") (GetContentType: "string option")

datatype AttachmentCollectionResponse =
  AttachmentCollectionResponse (Attachments_GetValue: "Attachmentable slice")

text \<open>
  What the service uses of \<^verbatim>\<open>msgraphsdk.GraphServiceClient\<close> and its request adapter:
  building the request for the delta of a mail folder, sending it, requesting a delta
  page by its link, listing the attachments of a message, getting a message and posting
  a mail. The SDK is not part of the repository, so each is a parameter.
\<close>

record ('s, 'm) GraphServiceClient =
  ToGetRequestInformation :: "string \<Rightarrow> string \<Rightarrow> go_error + RequestInformation"
  Send :: "RequestInformation \<Rightarrow> ('s, 'm DeltaResponse) request"
  DeltaGet :: "string \<Rightarrow> ('s, 'm DeltaResponse) request"
  AttachmentsGet :: "string \<Rightarrow> string \<Rightarrow> ('s, AttachmentCollectionResponse) request"
  MessageGet :: "string \<Rightarrow> string \<Rightarrow> ('s, 'm) request"
  SendMailPost :: "string \<Rightarrow> string \<Rightarrow> string \<Rightarrow> string \<Rightarrow> 's \<Rightarrow> go_error option \<times> 's"

record FileAttachment =
  Name :: string
  ContentType :: string
  Content :: "byte slice"

section \<open>The service\<close>

subsection \<open>GetMailFolderMessagesDeltaLink\<close>

text \<open>
  The loop of lines 93 to 98 with the return of line 100: while the page has a next
  link, request that link; a failed request returns \<^verbatim>\<open>(nil, parseError(err))\<close>; a page
  without a next link ends the loop and its delta link (nil or not) is returned with a
  nil error. The loop has no bound, so the function is partial: \<open>None\<close> is a run that
  never returns.
\<close>

partial_function (option) skip_existing ::
  "(string \<Rightarrow> ('s, 'm DeltaResponse) request) \<Rightarrow> 'm DeltaResponse \<Rightarrow> 's \<Rightarrow>
     ((string option \<times> go_error option) \<times> 's) option"
where
  "skip_existing get result s =
     (case GetOdataNextLink result of
        None \<Rightarrow> Some ((GetOdataDeltaLink result, None), s)
      | Some link \<Rightarrow>
          (case get link s of
             (Inl err, s') \<Rightarrow> Some ((None, parseError (Some err)), s')
           | (Inr result', s') \<Rightarrow> skip_existing get result' s'))"

definition delta_url_template :: string where
  "delta_url_template =
     ''{+baseurl}/users/{user%2Did}/mailFolders/{mailFolder%2Did}/messages/microsoft.graph.delta()?changeType=created{?%24top,%24skip,%24search,%24filter,%24count,%24select,%24orderby}''"

definition GetMailFolderMessagesDeltaLink ::
  "('s, 'm) GraphServiceClient \<Rightarrow> string \<Rightarrow> string \<Rightarrow> 's \<Rightarrow>
     ((string option \<times> go_error option) \<times> 's) option"
where
  "GetMailFolderMessagesDeltaLink c userId mailFolderId s =
     (case ToGetRequestInformation c userId mailFolderId of
        Inl err \<Rightarrow> Some ((None, parseError (Some err)), s)
      | Inr ri \<Rightarrow>
          (case Send c (ri\<lparr>UrlTemplate := delta_url_template\<rparr>) s of
             (Inl err, s') \<Rightarrow> Some ((None, parseError (Some err)), s')
           | (Inr result, s') \<Rightarrow> skip_existing (DeltaGet c) result s'))"

subsection \<open>GetMessagesDelta\<close>

text \<open>
  The loop of lines 116 to 122 with lines 124 to 126: while the page has no delta link,
  dereference its next link (a panic when that is nil too), request it, return
  \<^verbatim>\<open>(nil, "", parseError(err))\<close> when the request fails, and append the page's items
  otherwise. A page with a delta link ends the loop: the items gathered, the delta link
  and a nil error are returned.
\<close>

partial_function (option) delta_loop ::
  "(string \<Rightarrow> ('s, 'm DeltaResponse) request) \<Rightarrow> 'm DeltaResponse \<Rightarrow> 'm slice \<Rightarrow> 's \<Rightarrow>
     (('m slice \<times> string \<times> go_error option) outcome \<times> 's) option"
where
  "delta_loop get response result s =
     (case GetOdataDeltaLink response of
        Some dl \<Rightarrow> Some (Return (result, dl, None), s)
      | None \<Rightarrow>
          (case GetOdataNextLink response of
             None \<Rightarrow> Some (NilPointerPanic, s)
           | Some link \<Rightarrow>
               (case get link s of
                  (Inl err, s') \<Rightarrow> Some (Return (None, '''', parseError (Some err)), s')
                | (Inr response', s') \<Rightarrow>
                    delta_loop get response'
                      (go_append result (elems (GetValue response'))) s')))"

definition GetMessagesDelta ::
  "('s, 'm) GraphServiceClient \<Rightarrow> string \<Rightarrow> 's \<Rightarrow>
     (('m slice \<times> string \<times> go_error option) outcome \<times> 's) option"
where
  "GetMessagesDelta c deltaLink s =
     (case DeltaGet c deltaLink s of
        (Inl err, s') \<Rightarrow> Some (Return (None, '''', parseError (Some err)), s')
      | (Inr response, s') \<Rightarrow>
          delta_loop (DeltaGet c) response (go_append None (elems (GetValue response))) s')"

subsection \<open>GetAttachments\<close>

text \<open>
  The loop of lines 141 to 153 over the attachments of the response. An attachment
  that is a file attachment is converted and appended; the conversion dereferences its
  name and its content type, which panics when one of them is nil. Any other kind of
  attachment is passed over.
\<close>

fun attachments_loop ::
  "bool \<Rightarrow> Attachmentable list \<Rightarrow> FileAttachment slice \<Rightarrow> FileAttachment slice outcome"
where
  "attachments_loop withContent [] attachments = Return attachments"
| "attachments_loop withContent (att # rest) attachments =
     (case att of
        FileAttachmentable name ctype bytes \<Rightarrow>
          (case name of
             None \<Rightarrow> NilPointerPanic
           | Some n \<Rightarrow>
               (case ctype of
                  None \<Rightarrow> NilPointerPanic
                | Some ct \<Rightarrow>
                    (let attachment = \<lparr>Name = n, ContentType = ct, Content = None\<rparr>;
                         attachment = (if withContent then attachment\<lparr>Content := bytes\<rparr>
                                       else attachment)
                     in attachments_loop withContent rest (go_append attachments [attachment]))))
      | OtherAttachmentable name ctype \<Rightarrow> attachments_loop withContent rest attachments)"

definition GetAttachments ::
  "('s, 'm) GraphServiceClient \<Rightarrow> string \<Rightarrow> string \<Rightarrow> bool \<Rightarrow> 's \<Rightarrow>
     (FileAttachment slice \<times> go_error option) outcome \<times> 's"
where
  "GetAttachments c userId messageId withContent s =
     (case AttachmentsGet c userId messageId s of
        (Inl err, s') \<Rightarrow> (Return (None, parseError (Some err)), s')
      | (Inr result, s') \<Rightarrow>
          (case attachments_loop withContent (elems (Attachments_GetValue result)) None of
             NilPointerPanic \<Rightarrow> (NilPointerPanic, s')
           | Return attachments \<Rightarrow> (Return (attachments, None), s')))"

subsection \<open>GetMessage and SendMessage\<close>

definition GetMessage ::
  "('s, 'm) GraphServiceClient \<Rightarrow> string \<Rightarrow> string \<Rightarrow> 's \<Rightarrow> ('m option \<times> go_error option) \<times> 's"
where
  "GetMessage c userId messageId s =
     (case MessageGet c userId messageId s of
        (Inl err, s') \<Rightarrow> ((None, parseError (Some err)), s')
      | (Inr result, s') \<Rightarrow> ((Some result, None), s'))"

definition SendMessage ::
  "('s, 'm) GraphServiceClient \<Rightarrow> string \<Rightarrow> string \<Rightarrow> string \<Rightarrow> string \<Rightarrow> 's \<Rightarrow>
     go_error option \<times> 's"
where
  "SendMessage c to from subject content s =
     (case SendMailPost c from to subject content s of (err, s') \<Rightarrow> (parseError err, s'))"

section \<open>Vocabulary of the specification\<close>

text \<open>A page carries exactly one of the two tokens: a next-page link or a delta link.\<close>

definition exactly_one_token :: "'m DeltaResponse \<Rightarrow> bool" where
  "exactly_one_token p = ((GetOdataNextLink p = None) \<noteq> (GetOdataDeltaLink p = None))"

text \<open>
  \<open>follows get s p qs s'\<close>: page \<open>p\<close> has been received and the world is in state \<open>s\<close>;
  requesting the next link of \<open>p\<close>, then that of the page received, and so on, succeeds
  each time and delivers the pages \<open>qs\<close> in this order, leaving the world in state \<open>s'\<close>.
  The pages of the traversal are then \<open>p # qs\<close>, and \<open>s'\<close> is the state right after the
  request that delivered the last of them.
\<close>

fun follows ::
  "(string \<Rightarrow> ('s, 'm DeltaResponse) request) \<Rightarrow> 's \<Rightarrow> 'm DeltaResponse \<Rightarrow>
     'm DeltaResponse list \<Rightarrow> 's \<Rightarrow> bool"
where
  "follows get s p [] s' = (s' = s)"
| "follows get s p (q # qs) s' =
     (case GetOdataNextLink p of
        None \<Rightarrow> False
      | Some link \<Rightarrow>
          (case get link s of
             (Inl err, s1) \<Rightarrow> False
           | (Inr r, s1) \<Rightarrow> r = q \<and> follows get s1 q qs s'))"

text \<open>The items of a list of pages, page after page.\<close>

definition items_of :: "'m DeltaResponse list \<Rightarrow> 'm list" where
  "items_of ps = concat (map (\<lambda>p. elems (GetValue p)) ps)"

text \<open>
  The flat message of a failure, in the words of the specification: the message of the
  structured OData error payload when the failure has one, else the text of the error.
\<close>

definition odata_message :: "go_error \<Rightarrow> string option" where
  "odata_message e =
     (case errors_As e of
        None \<Rightarrow> None
      | Some ode \<Rightarrow> (case GetError ode of None \<Rightarrow> None | Some me \<Rightarrow> MainError_GetMessage me))"

definition flat_message :: "go_error \<Rightarrow> string" where
  "flat_message e = (case odata_message e of Some m \<Rightarrow> m | None \<Rightarrow> Error e)"

text \<open>Attachments: the file variant, and the file attachment the service makes of one.\<close>

fun is_file :: "Attachmentable \<Rightarrow> bool" where
  "is_file (FileAttachmentable name ctype bytes) = True"
| "is_file (OtherAttachmentable name ctype) = False"

definition named :: "Attachmentable \<Rightarrow> bool" where
  "named att = (GetName att \<noteq> None \<and> GetContentType att \<noteq> None)"

definition file_attachment_of :: "bool \<Rightarrow> Attachmentable \<Rightarrow> FileAttachment" where
  "file_attachment_of withContent att =
     \<lparr>Name = (case GetName att of Some n \<Rightarrow> n | None \<Rightarrow> []),
      ContentType = (case GetContentType att of Some ct \<Rightarrow> ct | None \<Rightarrow> []),
      Content = (if withContent then GetContentBytes att else None)\<rparr>"

section \<open>A stub of the remote API\<close>

text \<open>
  A remote API keyed by cursor value, as in the scenario of the specification. Its
  state is the log of the requests made so far; the items are message names.
\<close>

definition page :: "string list \<Rightarrow> string option \<Rightarrow> string option \<Rightarrow> string DeltaResponse" where
  "page items next delta =
     \<lparr>GetValue = Some items, GetOdataNextLink = next, GetOdataDeltaLink = delta\<rparr>"

definition stub_folder :: "string \<Rightarrow> go_error + string DeltaResponse" where
  "stub_folder folder =
     (if folder = ''F1'' then Inr (page [''old-1''] (Some ''p2'') None)
      else if folder = ''F2'' then Inr (page [''old-1''] (Some ''n2'') None)
      else if folder = ''F3'' then Inr (page [''old-1''] None None)
      else
        Inl (OData (ODataError (Some (MainError (Some ''folder not found'')))
               ''error status code received from the API'')))"

definition stub_page :: "string \<Rightarrow> go_error + string DeltaResponse" where
  "stub_page url =
     (if url = ''p2'' then Inr (page [''old-2''] None (Some ''d1''))
      else if url = ''d1'' then Inr (page [''msg-1'', ''msg-2''] None (Some ''d2''))
      else if url = ''d2'' then Inr (page [''msg-3''] (Some ''p3'') None)
      else if url = ''p3'' then Inr (page [''msg-4'', ''msg-5''] None (Some ''d3''))
      else if url = ''d3'' then Inr (page [''msg-6''] (Some ''n2'') None)
      else if url = ''n2'' then
        Inl (WrapError ''request failed''
               (OData (ODataError (Some (MainError (Some ''too many requests'')))
                  ''error status code received from the API'')))
      else if url = ''d4'' then
        Inr \<lparr>GetValue = None, GetOdataNextLink = None, GetOdataDeltaLink = Some ''d5''\<rparr>
      else if url = ''d5'' then Inr (page [''msg-7''] None None)
      else Inl (ErrorString ''connection refused''))"

definition stub_attachments :: "string \<Rightarrow> go_error + AttachmentCollectionResponse" where
  "stub_attachments messageId =
     (if messageId = ''m1'' then
        Inr (AttachmentCollectionResponse (Some
          [FileAttachmentable (Some ''a.txt'') (Some ''text/plain'') (Some [104, 105]),
           OtherAttachmentable (Some ''meeting'') None,
           FileAttachmentable (Some ''b.bin'') (Some ''application/octet-stream'') None]))
      else if messageId = ''m2'' then
        Inr (AttachmentCollectionResponse (Some
          [FileAttachmentable None (Some ''text/plain'') (Some [104, 105])]))
      else Inl (ErrorString ''connection refused''))"

definition stub :: "(string list, string) GraphServiceClient" where
  "stub =
     \<lparr>ToGetRequestInformation = (\<lambda>userId mailFolderId.
        if userId = [] then Inl (ErrorString ''missing path parameter'')
        else Inr \<lparr>UrlTemplate = ''{+baseurl}/users/{user%2Did}/mailFolders/{mailFolder%2Did}/messages/microsoft.graph.delta()'',
                  PathUserId = userId, PathMailFolderId = mailFolderId\<rparr>),
      Send = (\<lambda>ri log. (stub_folder (PathMailFolderId ri), log @ [PathMailFolderId ri])),
      DeltaGet = (\<lambda>url log. (stub_page url, log @ [url])),
      AttachmentsGet = (\<lambda>userId messageId log. (stub_attachments messageId, log @ [messageId])),
      MessageGet = (\<lambda>userId messageId log.
        (if messageId = ''m1'' then Inr ''msg-1'' else Inl (ErrorString ''connection refused''),
         log @ [messageId])),
      SendMailPost = (\<lambda>from to subject content log.
        (if from = [] then Some (ErrorString ''connection refused'') else None, log @ [to]))\<rparr>"

section \<open>Slices and errors\<close>

lemma go_append_assoc: "go_append (go_append s xs) ys = go_append s (xs @ ys)"
  by (simp add: go_append_def elems_def)

lemma elems_go_append: "elems (go_append s xs) = elems s @ xs"
  by (simp add: go_append_def elems_def)

lemma elems_None: "elems None = []"
  by (simp add: elems_def)

lemma parseError_Some: "parseError (Some e) = Some (ErrorString (flat_message e))"
  by (simp add: parseError_def flat_message_def odata_message_def errors_New_def
      split: option.splits)

lemma parseError_Some_neq_None: "parseError (Some e) \<noteq> None"
  by (simp add: parseError_Some)

text \<open>
  C8. \<^verbatim>\<open>parseError\<close> maps nil to nil, and any other error to an error that is only a
  text: the message of the OData error payload of the failure when there is one with a
  message, the text of the error itself otherwise.
\<close>

theorem parseError_flat:
  "parseError None = None \<and>
   parseError (Some e) = Some (ErrorString (flat_message e)) \<and>
   (odata_message e = Some m \<longrightarrow> parseError (Some e) = Some (ErrorString m)) \<and>
   (odata_message e = None \<longrightarrow> parseError (Some e) = Some (ErrorString (Error e)))"
  by (simp add: parseError_def flat_message_def odata_message_def errors_New_def
      split: option.splits)

theorem parseError_flat_witness:
  "odata_message (WrapError ''request failed''
       (OData (ODataError (Some (MainError (Some ''too many requests'')))
          ''error status code received from the API''))) = Some ''too many requests'' \<and>
   parseError (Some (WrapError ''request failed''
       (OData (ODataError (Some (MainError (Some ''too many requests'')))
          ''error status code received from the API'')))) = Some (ErrorString ''too many requests'') \<and>
   odata_message (OData (ODataError None ''unauthorized'')) = None \<and>
   parseError (Some (OData (ODataError None ''unauthorized''))) = Some (ErrorString ''unauthorized'')"
  using parseError_flat [of "WrapError ''request failed''
       (OData (ODataError (Some (MainError (Some ''too many requests'')))
          ''error status code received from the API''))" "''too many requests''"]
    parseError_flat [of "OData (ODataError None ''unauthorized'')"]
  by (simp add: odata_message_def flat_message_def)

section \<open>The traversal loops\<close>

lemma follows_ConsE:
  assumes "follows get s p (q # qs) s'"
  obtains link s1 where "GetOdataNextLink p = Some link" "get link s = (Inr q, s1)"
    "follows get s1 q qs s'"
  using assms by (auto split: option.splits prod.splits sum.splits)

lemma follows_next:
  "follows get s p qs s' \<Longrightarrow> q \<in> set (butlast (p # qs)) \<Longrightarrow> GetOdataNextLink q \<noteq> None"
proof (induction qs arbitrary: p s)
  case Nil
  then show ?case by simp
next
  case (Cons r rs)
  from Cons.prems(1) obtain link s1 where
    l: "GetOdataNextLink p = Some link" and f: "follows get s1 r rs s'"
    by (rule follows_ConsE)
  from Cons.prems(2) have "q = p \<or> q \<in> set (butlast (r # rs))" by auto
  then show ?case
  proof
    assume "q = p"
    with l show ?thesis by simp
  next
    assume "q \<in> set (butlast (r # rs))"
    with Cons.IH [OF f] show ?thesis .
  qed
qed

lemma exactly_one_token_next:
  "exactly_one_token q \<Longrightarrow> GetOdataNextLink q \<noteq> None \<Longrightarrow> GetOdataDeltaLink q = None"
  by (simp add: exactly_one_token_def)

lemma exactly_one_token_delta:
  "exactly_one_token q \<Longrightarrow> GetOdataDeltaLink q \<noteq> None \<Longrightarrow> GetOdataNextLink q = None"
  by (auto simp add: exactly_one_token_def)

lemma exactly_one_token_no_next:
  "exactly_one_token q \<Longrightarrow> GetOdataNextLink q = None \<Longrightarrow> GetOdataDeltaLink q \<noteq> None"
  by (simp add: exactly_one_token_def)


lemma followed_pages_no_delta:
  assumes "follows get s p qs s'" and "\<forall>q \<in> set (p # qs). exactly_one_token q"
  shows "\<forall>q \<in> set (butlast (p # qs)). GetOdataDeltaLink q = None"
proof
  fix q assume q: "q \<in> set (butlast (p # qs))"
  then have "q \<in> set (p # qs)" by (rule in_set_butlastD)
  with assms(2) have "exactly_one_token q" by blast
  moreover from assms(1) q have "GetOdataNextLink q \<noteq> None" by (rule follows_next)
  ultimately show "GetOdataDeltaLink q = None" by (rule exactly_one_token_next)
qed

text \<open>
  Over pages without a delta link that the remote API serves one after the other, the
  loop of \<^verbatim>\<open>GetMessagesDelta\<close> moves to the last of them, having appended the items
  of each.
\<close>

lemma delta_loop_advance:
  assumes "follows get s p qs s'"
    and "\<forall>q \<in> set (butlast (p # qs)). GetOdataDeltaLink q = None"
  shows "delta_loop get p acc s =
           delta_loop get (last (p # qs)) (go_append acc (items_of qs)) s'"
  using assms
proof (induction qs arbitrary: p s acc)
  case Nil
  then show ?case by (simp add: items_of_def go_append_def)
next
  case (Cons q qs)
  from Cons.prems(1) obtain link s1 where
    l: "GetOdataNextLink p = Some link" and g: "get link s = (Inr q, s1)"
    and f: "follows get s1 q qs s'"
    by (rule follows_ConsE)
  from Cons.prems(2) have nd: "GetOdataDeltaLink p = None"
    and rest: "\<forall>r \<in> set (butlast (q # qs)). GetOdataDeltaLink r = None"
    by auto
  have "delta_loop get p acc s = delta_loop get q (go_append acc (elems (GetValue q))) s1"
    by (subst delta_loop.simps) (simp add: nd l g)
  also have "\<dots> = delta_loop get (last (q # qs))
      (go_append (go_append acc (elems (GetValue q))) (items_of qs)) s'"
    by (rule Cons.IH [OF f rest])
  finally show ?case by (simp add: go_append_assoc items_of_def)
qed

text \<open>The loop of \<^verbatim>\<open>GetMailFolderMessagesDeltaLink\<close> moves to the last page likewise.\<close>

lemma skip_existing_advance:
  assumes "follows get s p qs s'"
  shows "skip_existing get p s = skip_existing get (last (p # qs)) s'"
  using assms
proof (induction qs arbitrary: p s)
  case Nil
  then show ?case by simp
next
  case (Cons q qs)
  from Cons.prems obtain link s1 where
    l: "GetOdataNextLink p = Some link" and g: "get link s = (Inr q, s1)"
    and f: "follows get s1 q qs s'"
    by (rule follows_ConsE)
  have "skip_existing get p s = skip_existing get q s1"
    by (subst skip_existing.simps) (simp add: l g)
  with Cons.IH [OF f] show ?case by simp
qed

lemma delta_loop_final:
  "GetOdataDeltaLink p = Some d \<Longrightarrow> delta_loop get p acc s = Some (Return (acc, d, None), s)"
  by (subst delta_loop.simps) simp


lemma delta_loop_request_fails:
  "GetOdataDeltaLink p = None \<Longrightarrow> GetOdataNextLink p = Some link \<Longrightarrow>
     get link s = (Inl e, s') \<Longrightarrow>
     delta_loop get p acc s = Some (Return (None, '''', parseError (Some e)), s')"
  by (subst delta_loop.simps) simp

lemma skip_existing_final:
  "GetOdataNextLink p = None \<Longrightarrow> skip_existing get p s = Some ((GetOdataDeltaLink p, None), s)"
  by (subst skip_existing.simps) simp

lemma skip_existing_request_fails:
  "GetOdataNextLink p = Some link \<Longrightarrow> get link s = (Inl e, s') \<Longrightarrow>
     skip_existing get p s = Some ((None, parseError (Some e)), s')"
  by (subst skip_existing.simps) simp

lemma GetMessagesDelta_first:
  "DeltaGet c deltaLink s = (Inr p, s1) \<Longrightarrow>
     GetMessagesDelta c deltaLink s =
       delta_loop (DeltaGet c) p (go_append None (elems (GetValue p))) s1"
  by (simp add: GetMessagesDelta_def)

lemma GetMailFolderMessagesDeltaLink_first:
  "ToGetRequestInformation c userId mailFolderId = Inr ri \<Longrightarrow>
     Send c (ri\<lparr>UrlTemplate := delta_url_template\<rparr>) s = (Inr p, s1) \<Longrightarrow>
     GetMailFolderMessagesDeltaLink c userId mailFolderId s = skip_existing (DeltaGet c) p s1"
  by (simp add: GetMailFolderMessagesDeltaLink_def)

lemma items_of_Cons: "items_of (p # qs) = elems (GetValue p) @ items_of qs"
  by (simp add: items_of_def)

lemma last_exactly_one_token:
  "\<forall>q \<in> set (p # qs). exactly_one_token q \<Longrightarrow> exactly_one_token (last (p # qs))"
  by (metis last_in_set list.discI)

lemma GetMessagesDelta_advance:
  assumes "DeltaGet c deltaLink s = (Inr p, s1)"
    and "follows (DeltaGet c) s1 p qs s'"
    and "\<forall>q \<in> set (butlast (p # qs)). GetOdataDeltaLink q = None"
  shows "GetMessagesDelta c deltaLink s =
           delta_loop (DeltaGet c) (last (p # qs)) (go_append None (items_of (p # qs))) s'"
proof -
  have "GetMessagesDelta c deltaLink s =
      delta_loop (DeltaGet c) p (go_append None (elems (GetValue p))) s1"
    using assms(1) by (rule GetMessagesDelta_first)
  also have "\<dots> = delta_loop (DeltaGet c) (last (p # qs))
      (go_append (go_append None (elems (GetValue p))) (items_of qs)) s'"
    using assms(2,3) by (rule delta_loop_advance)
  finally show ?thesis by (simp add: go_append_assoc items_of_Cons)
qed

lemma GetMailFolderMessagesDeltaLink_advance:
  assumes "ToGetRequestInformation c userId mailFolderId = Inr ri"
    and "Send c (ri\<lparr>UrlTemplate := delta_url_template\<rparr>) s = (Inr p, s1)"
    and "follows (DeltaGet c) s1 p qs s'"
  shows "GetMailFolderMessagesDeltaLink c userId mailFolderId s =
           skip_existing (DeltaGet c) (last (p # qs)) s'"
proof -
  have "GetMailFolderMessagesDeltaLink c userId mailFolderId s = skip_existing (DeltaGet c) p s1"
    using assms(1,2) by (rule GetMailFolderMessagesDeltaLink_first)
  also have "\<dots> = skip_existing (DeltaGet c) (last (p # qs)) s'"
    using assms(3) by (rule skip_existing_advance)
  finally show ?thesis .
qed

section \<open>Fetching changes\<close>

text \<open>
  C1. A traversal of \<^verbatim>\<open>GetMessagesDelta\<close> over the pages \<open>p # qs\<close>, each carrying exactly
  one token and the last one a delta link \<open>d\<close>, returns the items of the pages in the
  order of the pages, the cursor \<open>d\<close> and a nil error.
\<close>

theorem GetMessagesDelta_accumulates:
  assumes first: "DeltaGet c deltaLink s = (Inr p, s1)"
    and rest: "follows (DeltaGet c) s1 p qs s'"
    and one: "\<forall>q \<in> set (p # qs). exactly_one_token q"
    and final: "GetOdataDeltaLink (last (p # qs)) = Some d"
  shows "GetMessagesDelta c deltaLink s =
           Some (Return (go_append None (items_of (p # qs)), d, None), s') \<and>
         elems (go_append None (items_of (p # qs))) = items_of (p # qs)"
proof -
  from rest one have nd: "\<forall>q \<in> set (butlast (p # qs)). GetOdataDeltaLink q = None"
    by (rule followed_pages_no_delta)
  have "GetMessagesDelta c deltaLink s =
      delta_loop (DeltaGet c) (last (p # qs)) (go_append None (items_of (p # qs))) s'"
    using first rest nd by (rule GetMessagesDelta_advance)
  also have "\<dots> = Some (Return (go_append None (items_of (p # qs)), d, None), s')"
    using final by (rule delta_loop_final)
  finally show ?thesis
    by (simp add: elems_go_append elems_None)
qed

theorem GetMessagesDelta_accumulates_witness:
  "DeltaGet stub ''d2'' [] = (Inr (page [''msg-3''] (Some ''p3'') None), [''d2'']) \<and>
   follows (DeltaGet stub) [''d2''] (page [''msg-3''] (Some ''p3'') None)
     [page [''msg-4'', ''msg-5''] None (Some ''d3'')] [''d2'', ''p3''] \<and>
   exactly_one_token (page [''msg-3''] (Some ''p3'') None) \<and>
   exactly_one_token (page [''msg-4'', ''msg-5''] None (Some ''d3'')) \<and>
   GetMessagesDelta stub ''d2'' [] =
     Some (Return (Some [''msg-3'', ''msg-4'', ''msg-5''], ''d3'', None), [''d2'', ''p3''])"
proof -
  have first: "DeltaGet stub ''d2'' [] = (Inr (page [''msg-3''] (Some ''p3'') None), [''d2''])"
    by (simp add: stub_def stub_page_def)
  have rest: "follows (DeltaGet stub) [''d2''] (page [''msg-3''] (Some ''p3'') None)
     [page [''msg-4'', ''msg-5''] None (Some ''d3'')] [''d2'', ''p3'']"
    by (simp add: stub_def stub_page_def page_def)
  have one: "\<forall>q \<in> set [page [''msg-3''] (Some ''p3'') None,
      page [''msg-4'', ''msg-5''] None (Some ''d3'')]. exactly_one_token q"
    by (simp add: exactly_one_token_def page_def)
  have final: "GetOdataDeltaLink (last [page [''msg-3''] (Some ''p3'') None,
      page [''msg-4'', ''msg-5''] None (Some ''d3'')]) = Some ''d3''"
    by (simp add: page_def)
  from GetMessagesDelta_accumulates [OF first rest one final] first rest one
  show ?thesis
    by (simp add: items_of_def go_append_def elems_def page_def)
qed

text \<open>
  C4. When the pages \<open>p # qs\<close> have been served, each carrying exactly one token, and the
  request for the page after them fails, \<^verbatim>\<open>GetMessagesDelta\<close> returns a nil item slice,
  the empty string as cursor and a non-nil error: nothing of the items of \<open>p # qs\<close>.
\<close>

theorem GetMessagesDelta_all_or_nothing:
  assumes first: "DeltaGet c deltaLink s = (Inr p, s1)"
    and rest: "follows (DeltaGet c) s1 p qs s2"
    and one: "\<forall>q \<in> set (p # qs). exactly_one_token q"
    and link: "GetOdataNextLink (last (p # qs)) = Some link"
    and fails: "DeltaGet c link s2 = (Inl e, s')"
  shows "GetMessagesDelta c deltaLink s =
           Some (Return (None, '''', Some (ErrorString (flat_message e))), s')"
proof -
  from rest one have nd: "\<forall>q \<in> set (butlast (p # qs)). GetOdataDeltaLink q = None"
    by (rule followed_pages_no_delta)
  from one have "exactly_one_token (last (p # qs))" by (rule last_exactly_one_token)
  with link have lnd: "GetOdataDeltaLink (last (p # qs)) = None"
    by (simp add: exactly_one_token_next)
  have "GetMessagesDelta c deltaLink s =
      delta_loop (DeltaGet c) (last (p # qs)) (go_append None (items_of (p # qs))) s2"
    using first rest nd by (rule GetMessagesDelta_advance)
  also have "\<dots> = Some (Return (None, '''', parseError (Some e)), s')"
    using lnd link fails by (rule delta_loop_request_fails)
  finally show ?thesis by (simp add: parseError_Some)
qed

theorem GetMessagesDelta_all_or_nothing_witness:
  "DeltaGet stub ''d3'' [] = (Inr (page [''msg-6''] (Some ''n2'') None), [''d3'']) \<and>
   exactly_one_token (page [''msg-6''] (Some ''n2'') None) \<and>
   fst (DeltaGet stub ''n2'' [''d3'']) =
     Inl (WrapError ''request failed''
            (OData (ODataError (Some (MainError (Some ''too many requests'')))
               ''error status code received from the API''))) \<and>
   GetMessagesDelta stub ''d3'' [] =
     Some (Return (None, '''', Some (ErrorString ''too many requests'')), [''d3'', ''n2''])"
proof -
  have first: "DeltaGet stub ''d3'' [] = (Inr (page [''msg-6''] (Some ''n2'') None), [''d3''])"
    by (simp add: stub_def stub_page_def)
  have rest: "follows (DeltaGet stub) [''d3''] (page [''msg-6''] (Some ''n2'') None) [] [''d3'']"
    by simp
  have one: "\<forall>q \<in> set [page [''msg-6''] (Some ''n2'') None]. exactly_one_token q"
    by (simp add: exactly_one_token_def page_def)
  have link: "GetOdataNextLink (last [page [''msg-6''] (Some ''n2'') None]) = Some ''n2''"
    by (simp add: page_def)
  have fails: "DeltaGet stub ''n2'' [''d3''] =
      (Inl (WrapError ''request failed''
               (OData (ODataError (Some (MainError (Some ''too many requests'')))
                  ''error status code received from the API''))), [''d3'', ''n2''])"
    by (simp add: stub_def stub_page_def)
  from GetMessagesDelta_all_or_nothing [OF first rest one link fails] first one fails
  show ?thesis
    by (simp add: flat_message_def odata_message_def)
qed

text \<open>
  C6. When the first page carries no item and a delta link \<open>d\<close>, \<^verbatim>\<open>GetMessagesDelta\<close>
  returns an empty item slice (the nil slice), the cursor \<open>d\<close> and a nil error.
\<close>

theorem GetMessagesDelta_empty_round:
  assumes first: "DeltaGet c deltaLink s = (Inr p, s')"
    and empty: "elems (GetValue p) = []"
    and final: "GetOdataDeltaLink p = Some d"
  shows "GetMessagesDelta c deltaLink s = Some (Return (None, d, None), s')"
proof -
  have "GetMessagesDelta c deltaLink s =
      delta_loop (DeltaGet c) p (go_append None (elems (GetValue p))) s'"
    using first by (rule GetMessagesDelta_first)
  also have "\<dots> = Some (Return (go_append None (elems (GetValue p)), d, None), s')"
    using final by (rule delta_loop_final)
  finally show ?thesis using empty by (simp add: go_append_def)
qed

theorem GetMessagesDelta_empty_round_witness:
  "DeltaGet stub ''d4'' [] =
     (Inr \<lparr>GetValue = None, GetOdataNextLink = None, GetOdataDeltaLink = Some ''d5''\<rparr>, [''d4'']) \<and>
   GetMessagesDelta stub ''d4'' [] = Some (Return (None, ''d5'', None), [''d4''])"
proof -
  have first: "DeltaGet stub ''d4'' [] =
     (Inr \<lparr>GetValue = None, GetOdataNextLink = None, GetOdataDeltaLink = Some ''d5''\<rparr>, [''d4''])"
    by (simp add: stub_def stub_page_def)
  have empty: "elems (GetValue \<lparr>GetValue = (None :: string slice), GetOdataNextLink = None,
      GetOdataDeltaLink = Some ''d5''\<rparr>) = []"
    by (simp add: elems_def)
  have final: "GetOdataDeltaLink \<lparr>GetValue = (None :: string slice), GetOdataNextLink = None,
      GetOdataDeltaLink = Some ''d5''\<rparr> = Some ''d5''"
    by simp
  from GetMessagesDelta_empty_round [OF first empty final] first
  show ?thesis by simp
qed

section \<open>Establishing the baseline\<close>

text \<open>
  C3. A traversal of \<^verbatim>\<open>GetMailFolderMessagesDeltaLink\<close> over the pages \<open>p # qs\<close>, each
  carrying exactly one token and the last one a delta link, returns the delta link of the
  last page and a nil error, whatever the number of pages and whatever their items: the
  result has no component that could hold an item.
\<close>

theorem GetMailFolderMessagesDeltaLink_final_delta:
  assumes req: "ToGetRequestInformation c userId mailFolderId = Inr ri"
    and first: "Send c (ri\<lparr>UrlTemplate := delta_url_template\<rparr>) s = (Inr p, s1)"
    and rest: "follows (DeltaGet c) s1 p qs s'"
    and one: "\<forall>q \<in> set (p # qs). exactly_one_token q"
    and final: "GetOdataDeltaLink (last (p # qs)) = Some d"
  shows "GetMailFolderMessagesDeltaLink c userId mailFolderId s = Some ((Some d, None), s')"
proof -
  from one have "exactly_one_token (last (p # qs))" by (rule last_exactly_one_token)
  with final have nn: "GetOdataNextLink (last (p # qs)) = None"
    by (simp add: exactly_one_token_delta)
  have "GetMailFolderMessagesDeltaLink c userId mailFolderId s =
      skip_existing (DeltaGet c) (last (p # qs)) s'"
    using req first rest by (rule GetMailFolderMessagesDeltaLink_advance)
  also have "\<dots> = Some ((GetOdataDeltaLink (last (p # qs)), None), s')"
    using nn by (rule skip_existing_final)
  finally show ?thesis using final by simp
qed

theorem GetMailFolderMessagesDeltaLink_final_delta_witness:
  "Send stub \<lparr>UrlTemplate = delta_url_template, PathUserId = ''u1'', PathMailFolderId = ''F1''\<rparr> [] =
     (Inr (page [''old-1''] (Some ''p2'') None), [''F1'']) \<and>
   follows (DeltaGet stub) [''F1''] (page [''old-1''] (Some ''p2'') None)
     [page [''old-2''] None (Some ''d1'')] [''F1'', ''p2''] \<and>
   GetMailFolderMessagesDeltaLink stub ''u1'' ''F1'' [] = Some ((Some ''d1'', None), [''F1'', ''p2''])"
proof -
  have req: "ToGetRequestInformation stub ''u1'' ''F1'' =
      Inr \<lparr>UrlTemplate = ''{+baseurl}/users/{user%2Did}/mailFolders/{mailFolder%2Did}/messages/microsoft.graph.delta()'',
           PathUserId = ''u1'', PathMailFolderId = ''F1''\<rparr>"
    by (simp add: stub_def)
  have first: "Send stub (\<lparr>UrlTemplate = ''{+baseurl}/users/{user%2Did}/mailFolders/{mailFolder%2Did}/messages/microsoft.graph.delta()'',
           PathUserId = ''u1'', PathMailFolderId = ''F1''\<rparr>\<lparr>UrlTemplate := delta_url_template\<rparr>) [] =
     (Inr (page [''old-1''] (Some ''p2'') None), [''F1''])"
    by (simp add: stub_def stub_folder_def)
  have rest: "follows (DeltaGet stub) [''F1''] (page [''old-1''] (Some ''p2'') None)
     [page [''old-2''] None (Some ''d1'')] [''F1'', ''p2'']"
    by (simp add: stub_def stub_page_def page_def)
  have one: "\<forall>q \<in> set [page [''old-1''] (Some ''p2'') None,
      page [''old-2''] None (Some ''d1'')]. exactly_one_token q"
    by (simp add: exactly_one_token_def page_def)
  have final: "GetOdataDeltaLink (last [page [''old-1''] (Some ''p2'') None,
      page [''old-2''] None (Some ''d1'')]) = Some ''d1''"
    by (simp add: page_def)
  from GetMailFolderMessagesDeltaLink_final_delta [OF req first rest one final] first rest
  show ?thesis by simp
qed

text \<open>
  C7. When a request of \<^verbatim>\<open>GetMailFolderMessagesDeltaLink\<close> fails (building the request,
  sending it for the first page, or requesting a later page by the next link of the
  page before it), the operation stops there and returns a nil cursor with the failure,
  flattened by \<^verbatim>\<open>parseError\<close>, as its error.
\<close>

theorem GetMailFolderMessagesDeltaLink_failure:
  "(ToGetRequestInformation c userId mailFolderId = Inl e \<longrightarrow>
      GetMailFolderMessagesDeltaLink c userId mailFolderId s =
        Some ((None, Some (ErrorString (flat_message e))), s)) \<and>
   (ToGetRequestInformation c userId mailFolderId = Inr ri \<and>
    Send c (ri\<lparr>UrlTemplate := delta_url_template\<rparr>) s = (Inl e, s') \<longrightarrow>
      GetMailFolderMessagesDeltaLink c userId mailFolderId s =
        Some ((None, Some (ErrorString (flat_message e))), s')) \<and>
   (ToGetRequestInformation c userId mailFolderId = Inr ri \<and>
    Send c (ri\<lparr>UrlTemplate := delta_url_template\<rparr>) s = (Inr p, s1) \<and>
    follows (DeltaGet c) s1 p qs s2 \<and>
    GetOdataNextLink (last (p # qs)) = Some link \<and>
    DeltaGet c link s2 = (Inl e, s') \<longrightarrow>
      GetMailFolderMessagesDeltaLink c userId mailFolderId s =
        Some ((None, Some (ErrorString (flat_message e))), s'))"
proof (intro conjI impI)
  assume "ToGetRequestInformation c userId mailFolderId = Inl e"
  then show "GetMailFolderMessagesDeltaLink c userId mailFolderId s =
      Some ((None, Some (ErrorString (flat_message e))), s)"
    by (simp add: GetMailFolderMessagesDeltaLink_def parseError_Some)
next
  assume "ToGetRequestInformation c userId mailFolderId = Inr ri \<and>
    Send c (ri\<lparr>UrlTemplate := delta_url_template\<rparr>) s = (Inl e, s')"
  then show "GetMailFolderMessagesDeltaLink c userId mailFolderId s =
      Some ((None, Some (ErrorString (flat_message e))), s')"
    by (simp add: GetMailFolderMessagesDeltaLink_def parseError_Some)
next
  assume a: "ToGetRequestInformation c userId mailFolderId = Inr ri \<and>
    Send c (ri\<lparr>UrlTemplate := delta_url_template\<rparr>) s = (Inr p, s1) \<and>
    follows (DeltaGet c) s1 p qs s2 \<and>
    GetOdataNextLink (last (p # qs)) = Some link \<and>
    DeltaGet c link s2 = (Inl e, s')"
  then have req: "ToGetRequestInformation c userId mailFolderId = Inr ri"
    and first: "Send c (ri\<lparr>UrlTemplate := delta_url_template\<rparr>) s = (Inr p, s1)"
    and rest: "follows (DeltaGet c) s1 p qs s2"
    and link: "GetOdataNextLink (last (p # qs)) = Some link"
    and fails: "DeltaGet c link s2 = (Inl e, s')"
    by blast+
  have "GetMailFolderMessagesDeltaLink c userId mailFolderId s =
      skip_existing (DeltaGet c) (last (p # qs)) s2"
    using req first rest by (rule GetMailFolderMessagesDeltaLink_advance)
  also have "\<dots> = Some ((None, parseError (Some e)), s')"
    using link fails by (rule skip_existing_request_fails)
  finally show "GetMailFolderMessagesDeltaLink c userId mailFolderId s =
      Some ((None, Some (ErrorString (flat_message e))), s')"
    by (simp add: parseError_Some)
qed

theorem GetMailFolderMessagesDeltaLink_failure_witness:
  "GetMailFolderMessagesDeltaLink stub [] ''F1'' [] =
     Some ((None, Some (ErrorString ''missing path parameter'')), []) \<and>
   GetMailFolderMessagesDeltaLink stub ''u1'' ''F9'' [] =
     Some ((None, Some (ErrorString ''folder not found'')), [''F9'']) \<and>
   GetMailFolderMessagesDeltaLink stub ''u1'' ''F2'' [] =
     Some ((None, Some (ErrorString ''too many requests'')), [''F2'', ''n2''])"
proof -
  let ?ri = "\<lambda>folder. \<lparr>UrlTemplate = ''{+baseurl}/users/{user%2Did}/mailFolders/{mailFolder%2Did}/messages/microsoft.graph.delta()'',
      PathUserId = ''u1'', PathMailFolderId = folder\<rparr>"
  have a: "ToGetRequestInformation stub [] ''F1'' = Inl (ErrorString ''missing path parameter'')"
    by (simp add: stub_def)
  have b: "ToGetRequestInformation stub ''u1'' ''F9'' = Inr (?ri ''F9'') \<and>
      Send stub ((?ri ''F9'')\<lparr>UrlTemplate := delta_url_template\<rparr>) [] =
        (Inl (OData (ODataError (Some (MainError (Some ''folder not found'')))
               ''error status code received from the API'')), [''F9''])"
    by (simp add: stub_def stub_folder_def)
  have c: "ToGetRequestInformation stub ''u1'' ''F2'' = Inr (?ri ''F2'') \<and>
      Send stub ((?ri ''F2'')\<lparr>UrlTemplate := delta_url_template\<rparr>) [] =
        (Inr (page [''old-1''] (Some ''n2'') None), [''F2'']) \<and>
      follows (DeltaGet stub) [''F2''] (page [''old-1''] (Some ''n2'') None) [] [''F2''] \<and>
      GetOdataNextLink (last (page [''old-1''] (Some ''n2'') None # [])) = Some ''n2'' \<and>
      DeltaGet stub ''n2'' [''F2''] =
        (Inl (WrapError ''request failed''
               (OData (ODataError (Some (MainError (Some ''too many requests'')))
                  ''error status code received from the API''))), [''F2'', ''n2''])"
    by (simp add: stub_def stub_folder_def stub_page_def page_def)
  have 1: "GetMailFolderMessagesDeltaLink stub [] ''F1'' [] =
     Some ((None, Some (ErrorString ''missing path parameter'')), [])"
    using GetMailFolderMessagesDeltaLink_failure [THEN conjunct1, THEN mp, OF a]
    by (simp add: flat_message_def odata_message_def)
  have 2: "GetMailFolderMessagesDeltaLink stub ''u1'' ''F9'' [] =
     Some ((None, Some (ErrorString ''folder not found'')), [''F9''])"
    using GetMailFolderMessagesDeltaLink_failure [THEN conjunct2, THEN conjunct1, THEN mp, OF b]
    by (simp add: flat_message_def odata_message_def)
  have 3: "GetMailFolderMessagesDeltaLink stub ''u1'' ''F2'' [] =
     Some ((None, Some (ErrorString ''too many requests'')), [''F2'', ''n2''])"
    using GetMailFolderMessagesDeltaLink_failure [THEN conjunct2, THEN conjunct2, THEN mp, OF c]
    by (simp add: flat_message_def odata_message_def)
  from 1 2 3 show ?thesis by blast
qed

section \<open>Termination of the traversals\<close>

text \<open>
  C5. Let the remote API serve the pages \<open>p # qs\<close>, each carrying exactly one token, and
  let the sequence end there (the last page has no next link to follow). Then both
  traversals return, in the state \<open>s'\<close> reached by the request that delivered the last
  page; that page carries a delta link, which is the cursor returned, and no page before
  it carries one.
\<close>

theorem traversals_terminate_at_delta_link:
  "(ToGetRequestInformation c userId mailFolderId = Inr ri \<and>
    Send c (ri\<lparr>UrlTemplate := delta_url_template\<rparr>) s = (Inr p, s1) \<and>
    follows (DeltaGet c) s1 p qs s' \<and>
    (\<forall>q \<in> set (p # qs). exactly_one_token q) \<and>
    GetOdataNextLink (last (p # qs)) = None \<longrightarrow>
      (\<exists>d. GetMailFolderMessagesDeltaLink c userId mailFolderId s = Some ((Some d, None), s') \<and>
           GetOdataDeltaLink (last (p # qs)) = Some d) \<and>
      (\<forall>q \<in> set (butlast (p # qs)). GetOdataDeltaLink q = None)) \<and>
   (DeltaGet c deltaLink s = (Inr p, s1) \<and>
    follows (DeltaGet c) s1 p qs s' \<and>
    (\<forall>q \<in> set (p # qs). exactly_one_token q) \<and>
    GetOdataNextLink (last (p # qs)) = None \<longrightarrow>
      (\<exists>items d. GetMessagesDelta c deltaLink s = Some (Return (items, d, None), s') \<and>
           GetOdataDeltaLink (last (p # qs)) = Some d) \<and>
      (\<forall>q \<in> set (butlast (p # qs)). GetOdataDeltaLink q = None))"
proof (intro conjI impI)
  assume a: "ToGetRequestInformation c userId mailFolderId = Inr ri \<and>
    Send c (ri\<lparr>UrlTemplate := delta_url_template\<rparr>) s = (Inr p, s1) \<and>
    follows (DeltaGet c) s1 p qs s' \<and>
    (\<forall>q \<in> set (p # qs). exactly_one_token q) \<and>
    GetOdataNextLink (last (p # qs)) = None"
  then have req: "ToGetRequestInformation c userId mailFolderId = Inr ri"
    and first: "Send c (ri\<lparr>UrlTemplate := delta_url_template\<rparr>) s = (Inr p, s1)"
    and rest: "follows (DeltaGet c) s1 p qs s'"
    and one: "\<forall>q \<in> set (p # qs). exactly_one_token q"
    and ends: "GetOdataNextLink (last (p # qs)) = None"
    by blast+
  from one have "exactly_one_token (last (p # qs))" by (rule last_exactly_one_token)
  with ends obtain d where d: "GetOdataDeltaLink (last (p # qs)) = Some d"
    by (auto dest: exactly_one_token_no_next)
  have "GetMailFolderMessagesDeltaLink c userId mailFolderId s =
      skip_existing (DeltaGet c) (last (p # qs)) s'"
    using req first rest by (rule GetMailFolderMessagesDeltaLink_advance)
  also have "\<dots> = Some ((GetOdataDeltaLink (last (p # qs)), None), s')"
    using ends by (rule skip_existing_final)
  finally have "GetMailFolderMessagesDeltaLink c userId mailFolderId s =
      Some ((Some d, None), s')"
    using d by simp
  with d show "\<exists>d. GetMailFolderMessagesDeltaLink c userId mailFolderId s =
      Some ((Some d, None), s') \<and> GetOdataDeltaLink (last (p # qs)) = Some d"
    by blast
  from rest one show "\<forall>q \<in> set (butlast (p # qs)). GetOdataDeltaLink q = None"
    by (rule followed_pages_no_delta)
next
  assume a: "DeltaGet c deltaLink s = (Inr p, s1) \<and>
    follows (DeltaGet c) s1 p qs s' \<and>
    (\<forall>q \<in> set (p # qs). exactly_one_token q) \<and>
    GetOdataNextLink (last (p # qs)) = None"
  then have first: "DeltaGet c deltaLink s = (Inr p, s1)"
    and rest: "follows (DeltaGet c) s1 p qs s'"
    and one: "\<forall>q \<in> set (p # qs). exactly_one_token q"
    and ends: "GetOdataNextLink (last (p # qs)) = None"
    by blast+
  from one have "exactly_one_token (last (p # qs))" by (rule last_exactly_one_token)
  with ends obtain d where d: "GetOdataDeltaLink (last (p # qs)) = Some d"
    by (auto dest: exactly_one_token_no_next)
  from rest one have nd: "\<forall>q \<in> set (butlast (p # qs)). GetOdataDeltaLink q = None"
    by (rule followed_pages_no_delta)
  have "GetMessagesDelta c deltaLink s =
      delta_loop (DeltaGet c) (last (p # qs)) (go_append None (items_of (p # qs))) s'"
    using first rest nd by (rule GetMessagesDelta_advance)
  also have "\<dots> = Some (Return (go_append None (items_of (p # qs)), d, None), s')"
    using d by (rule delta_loop_final)
  finally have "GetMessagesDelta c deltaLink s =
      Some (Return (go_append None (items_of (p # qs)), d, None), s')" .
  with d show "\<exists>items d. GetMessagesDelta c deltaLink s = Some (Return (items, d, None), s') \<and>
      GetOdataDeltaLink (last (p # qs)) = Some d"
    by blast
  from rest one show "\<forall>q \<in> set (butlast (p # qs)). GetOdataDeltaLink q = None"
    by (rule followed_pages_no_delta)
qed

theorem traversals_terminate_at_delta_link_witness:
  "GetMailFolderMessagesDeltaLink stub ''u1'' ''F1'' [] =
     Some ((Some ''d1'', None), [''F1'', ''p2'']) \<and>
   (\<exists>items. GetMessagesDelta stub ''d2'' [] =
     Some (Return (items, ''d3'', None), [''d2'', ''p3'']))"
proof -
  let ?ri = "\<lparr>UrlTemplate = ''{+baseurl}/users/{user%2Did}/mailFolders/{mailFolder%2Did}/messages/microsoft.graph.delta()'',
      PathUserId = ''u1'', PathMailFolderId = ''F1''\<rparr>"
  have a: "ToGetRequestInformation stub ''u1'' ''F1'' = Inr ?ri \<and>
      Send stub (?ri\<lparr>UrlTemplate := delta_url_template\<rparr>) [] =
        (Inr (page [''old-1''] (Some ''p2'') None), [''F1'']) \<and>
      follows (DeltaGet stub) [''F1''] (page [''old-1''] (Some ''p2'') None)
        [page [''old-2''] None (Some ''d1'')] [''F1'', ''p2''] \<and>
      (\<forall>q \<in> set (page [''old-1''] (Some ''p2'') None # [page [''old-2''] None (Some ''d1'')]).
         exactly_one_token q) \<and>
      GetOdataNextLink (last (page [''old-1''] (Some ''p2'') None #
         [page [''old-2''] None (Some ''d1'')])) = None"
    by (simp add: stub_def stub_folder_def stub_page_def page_def exactly_one_token_def)
  have b: "DeltaGet stub ''d2'' [] = (Inr (page [''msg-3''] (Some ''p3'') None), [''d2'']) \<and>
      follows (DeltaGet stub) [''d2''] (page [''msg-3''] (Some ''p3'') None)
        [page [''msg-4'', ''msg-5''] None (Some ''d3'')] [''d2'', ''p3''] \<and>
      (\<forall>q \<in> set (page [''msg-3''] (Some ''p3'') None #
         [page [''msg-4'', ''msg-5''] None (Some ''d3'')]). exactly_one_token q) \<and>
      GetOdataNextLink (last (page [''msg-3''] (Some ''p3'') None #
         [page [''msg-4'', ''msg-5''] None (Some ''d3'')])) = None"
    by (simp add: stub_def stub_page_def page_def exactly_one_token_def)
  have 1: "GetMailFolderMessagesDeltaLink stub ''u1'' ''F1'' [] =
     Some ((Some ''d1'', None), [''F1'', ''p2''])"
    using traversals_terminate_at_delta_link [THEN conjunct1, THEN mp, OF a]
    by (auto simp add: page_def)
  have 2: "\<exists>items. GetMessagesDelta stub ''d2'' [] =
     Some (Return (items, ''d3'', None), [''d2'', ''p3''])"
    using traversals_terminate_at_delta_link [THEN conjunct2, THEN mp, OF b]
    by (auto simp add: page_def)
  from 1 2 show ?thesis by blast
qed

section \<open>A page that carries neither token\<close>




section \<open>Attachments\<close>

lemma go_append_single_then:
  "go_append (go_append s [x]) xs = go_append s (x # xs)"
  by (simp add: go_append_assoc)

text \<open>
  When every file attachment of the list has a name and a content type, the loop of
  \<^verbatim>\<open>GetAttachments\<close> appends the file attachments made of the file variants, in order.
\<close>

lemma attachments_loop_named:
  "\<forall>att \<in> set atts. is_file att \<longrightarrow> named att \<Longrightarrow>
     attachments_loop withContent atts acc =
       Return (go_append acc (map (file_attachment_of withContent) (filter is_file atts)))"
proof (induction atts arbitrary: acc)
  case Nil
  then show ?case by (simp add: go_append_def)
next
  case (Cons att atts)
  from Cons.prems have rest: "\<forall>a \<in> set atts. is_file a \<longrightarrow> named a" by simp
  show ?case
  proof (cases att)
    case (FileAttachmentable name ctype bytes)
    with Cons.prems obtain n ct where "name = Some n" "ctype = Some ct"
      by (auto simp add: named_def)
    with FileAttachmentable Cons.IH [OF rest] show ?thesis
      by (simp add: file_attachment_of_def go_append_single_then)
  next
    case (OtherAttachmentable name ctype)
    with Cons.IH [OF rest] show ?thesis by simp
  qed
qed

text \<open>The loop returns only when every file attachment has a name and a content type.\<close>

lemma attachments_loop_Return_named:
  "attachments_loop withContent atts acc = Return r \<Longrightarrow>
     \<forall>att \<in> set atts. is_file att \<longrightarrow> named att"
proof (induction atts arbitrary: acc)
  case Nil
  then show ?case by simp
next
  case (Cons att atts)
  show ?case
  proof (cases att)
    case (FileAttachmentable name ctype bytes)
    with Cons.prems obtain n ct where nc: "name = Some n" "ctype = Some ct"
      by (auto split: option.splits)
    with FileAttachmentable Cons.prems obtain acc' where
      "attachments_loop withContent atts acc' = Return r"
      by (auto simp add: Let_def)
    then have "\<forall>a \<in> set atts. is_file a \<longrightarrow> named a" by (rule Cons.IH)
    with FileAttachmentable nc show ?thesis by (simp add: named_def)
  next
    case (OtherAttachmentable name ctype)
    with Cons.prems have "attachments_loop withContent atts acc = Return r" by simp
    then have "\<forall>a \<in> set atts. is_file a \<longrightarrow> named a" by (rule Cons.IH)
    with OtherAttachmentable show ?thesis by simp
  qed
qed

lemma GetAttachments_named:
  assumes "AttachmentsGet c userId messageId s = (Inr result, s')"
    and "\<forall>att \<in> set (elems (Attachments_GetValue result)). is_file att \<longrightarrow> named att"
  shows "GetAttachments c userId messageId withContent s =
           (Return (go_append None (map (file_attachment_of withContent)
              (filter is_file (elems (Attachments_GetValue result)))), None), s')"
  using assms by (simp add: GetAttachments_def attachments_loop_named)

lemma file_attachment_of_fields:
  "named att \<Longrightarrow>
     Some (Name (file_attachment_of withContent att)) = GetName att \<and>
     Some (ContentType (file_attachment_of withContent att)) = GetContentType att \<and>
     Content (file_attachment_of withContent att) =
       (if withContent then GetContentBytes att else None)"
  by (auto simp add: named_def file_attachment_of_def)

text \<open>
  C9, as the specification states it, fails: on a list whose only attachment is a file
  attachment without a name, \<^verbatim>\<open>GetAttachments\<close> dereferences the nil name and returns
  nothing, although the attachment is of the file variant.
\<close>

theorem GetAttachments_nil_name_counterexample:
  "AttachmentsGet stub ''u1'' ''m2'' [] =
     (Inr (AttachmentCollectionResponse (Some
        [FileAttachmentable None (Some ''text/plain'') (Some [104, 105])])), [''m2'']) \<and>
   is_file (FileAttachmentable None (Some ''text/plain'') (Some [104, 105])) \<and>
   GetAttachments stub ''u1'' ''m2'' False [] = (NilPointerPanic, [''m2''])"
  by (simp add: GetAttachments_def stub_def stub_attachments_def elems_def)

text \<open>
  C9, amended. For every attachment list returned by the remote API in which each file
  attachment has a name and a content type, \<^verbatim>\<open>GetAttachments\<close> returns, with a nil
  error, exactly the file attachments made of the attachments of the file variant, in
  their order in the list; every other kind of attachment is left out.
\<close>

theorem GetAttachments_file_variants:
  assumes "AttachmentsGet c userId messageId s = (Inr result, s')"
    and "\<forall>att \<in> set (elems (Attachments_GetValue result)). is_file att \<longrightarrow> named att"
  shows "\<exists>attachments.
           GetAttachments c userId messageId withContent s = (Return (attachments, None), s') \<and>
           elems attachments =
             map (file_attachment_of withContent)
               (filter is_file (elems (Attachments_GetValue result)))"
  using GetAttachments_named [OF assms] by (simp add: elems_go_append elems_None)

theorem GetAttachments_file_variants_witness:
  "AttachmentsGet stub ''u1'' ''m1'' [] =
     (Inr (AttachmentCollectionResponse (Some
        [FileAttachmentable (Some ''a.txt'') (Some ''text/plain'') (Some [104, 105]),
         OtherAttachmentable (Some ''meeting'') None,
         FileAttachmentable (Some ''b.bin'') (Some ''application/octet-stream'') None])),
      [''m1'']) \<and>
   GetAttachments stub ''u1'' ''m1'' True [] =
     (Return (Some
        [\<lparr>Name = ''a.txt'', ContentType = ''text/plain'', Content = Some [104, 105]\<rparr>,
         \<lparr>Name = ''b.bin'', ContentType = ''application/octet-stream'', Content = None\<rparr>],
        None), [''m1''])"
proof -
  let ?atts = "[FileAttachmentable (Some ''a.txt'') (Some ''text/plain'') (Some [104, 105]),
         OtherAttachmentable (Some ''meeting'') None,
         FileAttachmentable (Some ''b.bin'') (Some ''application/octet-stream'') None]"
  have get: "AttachmentsGet stub ''u1'' ''m1'' [] =
      (Inr (AttachmentCollectionResponse (Some ?atts)), [''m1''])"
    by (simp add: stub_def stub_attachments_def)
  have named: "\<forall>att \<in> set (elems (Attachments_GetValue
      (AttachmentCollectionResponse (Some ?atts)))). is_file att \<longrightarrow> named att"
    by (simp add: elems_def named_def)
  from GetAttachments_file_variants [OF get named, of True] get
  show ?thesis
    by (auto simp add: elems_def file_attachment_of_def split: option.splits)
qed

text \<open>
  C10. A call of \<^verbatim>\<open>GetAttachments\<close> that succeeds returns one file attachment for each
  attachment of the file variant, with the name and the content type of that
  attachment. Without \<^verbatim>\<open>withContent\<close> the content of each is nil; with it, the content is
  the content bytes of the attachment.
\<close>

theorem GetAttachments_content:
  assumes "GetAttachments c userId messageId withContent s = (Return (attachments, None), s')"
  shows "\<exists>result.
           AttachmentsGet c userId messageId s = (Inr result, s') \<and>
           map (\<lambda>a. (Some (Name a), Some (ContentType a))) (elems attachments) =
             map (\<lambda>att. (GetName att, GetContentType att))
               (filter is_file (elems (Attachments_GetValue result))) \<and>
           (\<not> withContent \<longrightarrow> (\<forall>a \<in> set (elems attachments). Content a = None)) \<and>
           (withContent \<longrightarrow>
              map Content (elems attachments) =
                map GetContentBytes (filter is_file (elems (Attachments_GetValue result))))"
proof -
  obtain r s1 where get: "AttachmentsGet c userId messageId s = (r, s1)"
    by (cases "AttachmentsGet c userId messageId s")
  with assms obtain result where r: "r = Inr result"
    by (cases r) (auto simp add: GetAttachments_def parseError_Some)
  let ?atts = "elems (Attachments_GetValue result)"
  from assms get r have s1: "s1 = s'"
    and loop: "attachments_loop withContent ?atts None = Return attachments"
    by (auto simp add: GetAttachments_def split: outcome.splits)
  from loop have named: "\<forall>att \<in> set ?atts. is_file att \<longrightarrow> named att"
    by (rule attachments_loop_Return_named)
  then have "attachments_loop withContent ?atts None =
      Return (go_append None (map (file_attachment_of withContent) (filter is_file ?atts)))"
    by (rule attachments_loop_named)
  with loop have "attachments =
      go_append None (map (file_attachment_of withContent) (filter is_file ?atts))"
    by simp
  then have "elems attachments =
      map (file_attachment_of withContent) (filter is_file ?atts)"
    by (simp only: elems_go_append elems_None append_Nil)
  moreover from named have "\<forall>att \<in> set (filter is_file ?atts). named att" by simp
  ultimately have
    "map (\<lambda>a. (Some (Name a), Some (ContentType a))) (elems attachments) =
       map (\<lambda>att. (GetName att, GetContentType att)) (filter is_file ?atts)"
    "\<not> withContent \<longrightarrow> (\<forall>a \<in> set (elems attachments). Content a = None)"
    "withContent \<longrightarrow> map Content (elems attachments) = map GetContentBytes (filter is_file ?atts)"
    by (auto simp add: file_attachment_of_fields)
  with get r s1 show ?thesis by blast
qed

theorem GetAttachments_content_witness:
  "GetAttachments stub ''u1'' ''m1'' False [] =
     (Return (Some
        [\<lparr>Name = ''a.txt'', ContentType = ''text/plain'', Content = None\<rparr>,
         \<lparr>Name = ''b.bin'', ContentType = ''application/octet-stream'', Content = None\<rparr>],
        None), [''m1'']) \<and>
   (\<exists>result. AttachmentsGet stub ''u1'' ''m1'' [] = (Inr result, [''m1'']) \<and>
      map (\<lambda>att. (GetName att, GetContentType att))
        (filter is_file (elems (Attachments_GetValue result))) =
      [(Some ''a.txt'', Some ''text/plain''), (Some ''b.bin'', Some ''application/octet-stream'')])"
proof -
  have run: "GetAttachments stub ''u1'' ''m1'' False [] =
     (Return (Some
        [\<lparr>Name = ''a.txt'', ContentType = ''text/plain'', Content = None\<rparr>,
         \<lparr>Name = ''b.bin'', ContentType = ''application/octet-stream'', Content = None\<rparr>],
        None), [''m1''])"
    by (simp add: GetAttachments_def stub_def stub_attachments_def elems_def go_append_def)
  from GetAttachments_content [OF run] run show ?thesis
    by (auto simp add: elems_def)
qed

section \<open>Errors of the operations\<close>

text \<open>
  Every error that an operation of the service returns has gone through
  \<^verbatim>\<open>parseError\<close>, so it is a text and nothing more.
\<close>

lemma parseError_is_flat: "parseError err = Some e \<Longrightarrow> \<exists>text. e = ErrorString text"
proof (cases err)
  case None
  assume "parseError err = Some e"
  with None show ?thesis by (simp add: parseError_def)
next
  case (Some a)
  assume "parseError err = Some e"
  with Some show ?thesis by (auto simp add: parseError_Some)
qed

lemma skip_existing_error_flat:
  assumes "skip_existing get p s = Some r"
  shows "snd (fst r) = Some e \<longrightarrow> (\<exists>text. e = ErrorString text)"
  using assms
  by (rule skip_existing.raw_induct
        [where P = "\<lambda>get p s r. snd (fst r) = Some e \<longrightarrow> (\<exists>text. e = ErrorString text)", rotated])
    (auto split: option.splits prod.splits sum.splits dest: parseError_is_flat)

lemma delta_loop_error_flat:
  assumes "delta_loop get p acc s = Some r"
  shows "(\<exists>items cursor. fst r = Return (items, cursor, Some e)) \<longrightarrow>
           (\<exists>text. e = ErrorString text)"
  using assms
  by (rule delta_loop.raw_induct
        [where P = "\<lambda>get p acc s r. (\<exists>items cursor. fst r = Return (items, cursor, Some e)) \<longrightarrow>
           (\<exists>text. e = ErrorString text)", rotated])
    (auto split: option.splits prod.splits sum.splits dest: parseError_is_flat)

lemma GetMailFolderMessagesDeltaLink_error_flat:
  "GetMailFolderMessagesDeltaLink c userId mailFolderId s = Some ((cursor, Some e), s') \<Longrightarrow>
     \<exists>text. e = ErrorString text"
  by (auto simp add: GetMailFolderMessagesDeltaLink_def
      split: sum.splits prod.splits dest: parseError_is_flat skip_existing_error_flat)

lemma GetMessagesDelta_error_flat:
  "GetMessagesDelta c deltaLink s = Some (Return (items, cursor, Some e), s') \<Longrightarrow>
     \<exists>text. e = ErrorString text"
  by (auto simp add: GetMessagesDelta_def
      split: sum.splits prod.splits dest: parseError_is_flat delta_loop_error_flat)

lemma GetAttachments_error_flat:
  "GetAttachments c userId messageId withContent s = (Return (attachments, Some e), s') \<Longrightarrow>
     \<exists>text. e = ErrorString text"
  by (auto simp add: GetAttachments_def
      split: sum.splits prod.splits outcome.splits dest: parseError_is_flat)

lemma GetMessage_error_flat:
  "GetMessage c userId messageId s = ((message, Some e), s') \<Longrightarrow> \<exists>text. e = ErrorString text"
  by (auto simp add: GetMessage_def split: sum.splits prod.splits dest: parseError_is_flat)

lemma SendMessage_error_flat:
  "SendMessage c to from subject content s = (Some e, s') \<Longrightarrow> \<exists>text. e = ErrorString text"
  by (auto simp add: SendMessage_def split: prod.splits dest: parseError_is_flat)

end
